theory Spec2Isabelle
  imports Complex_Main "HOL-Library.Sublist" "HOL-Library.AList"
begin

section \<open>Global-mean surface temperature pipeline of \<^verbatim>\<open>00s_solution_SSP_exercise.ipynb\<close>\<close>

text \<open>
  The notebook processes a dictionary of labelled array datasets in three loops: the loader
  loop (normalise each dataset, then reduce its temperature field to a global-mean series),
  the splicing loop (join every future-scenario series to its historical companion) and the
  anomaly loop (remove the monthly climatology). The first two are embedded here.

  Conventions of the embedding:
  \<^item> finite floating-point numbers are idealised as \<^typ>\<open>real\<close>: arithmetic is exact,
    rounding and overflow are not modelled, so nothing below says that a double-precision
    result equals a given number to the last bit. A missing cell (NaN) of a field is
    \<open>None\<close>; a number that a division can produce is an \<open>npfloat\<close>, which adds NaN and the
    two infinities;
  \<^item> a timestamp of the monthly data is the number of months since year 0, an \<^typ>\<open>int\<close>,
    so that \<open>year_of t = t div 12\<close>;
  \<^item> a Python dictionary is an association list in insertion order with distinct keys;
  \<^item> a Python exception is a value \<open>Inl e\<close> of a sum type.
\<close>

subsection \<open>Python strings and exceptions\<close>

datatype py_error = KeyError string | ValueError string | TypeError string | IndexError

fun exc_name :: "py_error \<Rightarrow> string" where
  "exc_name (KeyError _) = ''KeyError''"
| "exc_name (ValueError _) = ''ValueError''"
| "exc_name (TypeError _) = ''TypeError''"
| "exc_name IndexError = ''IndexError''"

text \<open>\<^verbatim>\<open>a in b\<close> on two strings: \<open>a\<close> occurs in \<open>b\<close> as a contiguous block.\<close>

definition str_in :: "string \<Rightarrow> string \<Rightarrow> bool" where
  "str_in a b = sublist a b"

text \<open>\<^verbatim>\<open>s.split(c)\<close> for a one-character separator: never empty, fields may be empty.\<close>

fun split_on :: "char \<Rightarrow> string \<Rightarrow> string list" where
  "split_on c [] = [[]]"
| "split_on c (x # xs) =
     (if x = c then [] # split_on c xs
      else (case split_on c xs of [] \<Rightarrow> [[x]] | w # ws \<Rightarrow> (x # w) # ws))"

text \<open>\<^verbatim>\<open>xs[i]\<close> for a non-negative index: \<^verbatim>\<open>IndexError\<close> out of range.\<close>

definition getitem :: "'a list \<Rightarrow> nat \<Rightarrow> py_error + 'a" where
  "getitem xs i = (if i < length xs then Inr (xs ! i) else Inl IndexError)"

subsection \<open>Datasets\<close>

text \<open>
  A dataset as the loader sees it. \<open>dims\<close> is \<^verbatim>\<open>ds.dims\<close> (dimension name to size),
  \<open>coords\<close> the names of \<^verbatim>\<open>ds.coords\<close> in iteration order, \<open>data_vars\<close> the names of the
  data variables. The payload is that of the two horizontal axes (in degrees), and of the
  temperature field, one grid per time step, each step labelled with its timestamp; a grid
  is read at (latitude index, longitude index).
\<close>

type_synonym grid = "nat \<Rightarrow> nat \<Rightarrow> real option"

record dataset =
  dims :: "(string \<times> nat) list"
  coords :: "string list"
  data_vars :: "string list"
  lat_vals :: "real list"
  lon_vals :: "real list"
  steps :: "(int \<times> grid) list"

definition dim_names :: "dataset \<Rightarrow> string set" where
  "dim_names ds = fst ` set (dims ds)"

definition var_names :: "dataset \<Rightarrow> string set" where
  "var_names ds = set (coords ds) \<union> set (data_vars ds)"

subsection \<open>Loader/Normalizer\<close>

text \<open>
  \<^verbatim>\<open>ds.rename({'longitude':'lon', 'latitude':'lat'})\<close>: dimensions and variables of these
  names are renamed; xarray raises \<^verbatim>\<open>ValueError\<close> when a renamed variable meets a
  variable that already has the new name.
\<close>

definition rename_name :: "string \<Rightarrow> string" where
  "rename_name n = (if n = ''longitude'' then ''lon'' else if n = ''latitude'' then ''lat'' else n)"

definition rename_conflict :: "dataset \<Rightarrow> bool" where
  "rename_conflict ds \<longleftrightarrow>
     (''longitude'' \<in> var_names ds \<and> ''lon'' \<in> var_names ds) \<or>
     (''latitude'' \<in> var_names ds \<and> ''lat'' \<in> var_names ds)"

definition rename_ds :: "dataset \<Rightarrow> py_error + dataset" where
  "rename_ds ds =
     (if rename_conflict ds then Inl (ValueError ''the new name conflicts'')
      else Inr (ds\<lparr>dims := map (\<lambda>(n, k). (rename_name n, k)) (dims ds),
                  coords := map rename_name (coords ds),
                  data_vars := map rename_name (data_vars ds)\<rparr>))"

text \<open>
  \<^verbatim>\<open>if ('longitude' in ds.dims) and ('latitude' in ds.dims): ds = ds.rename(...)\<close>
\<close>

definition rename_spatial :: "dataset \<Rightarrow> py_error + dataset" where
  "rename_spatial ds =
     (if ''longitude'' \<in> dim_names ds \<and> ''latitude'' \<in> dim_names ds then rename_ds ds
      else Inr ds)"

text \<open>
  \<^verbatim>\<open>time_slice = slice('1850','2100')\<close> and \<^verbatim>\<open>ds.sel(time=time_slice)\<close>: the steps whose
  year lies in the closed range are kept, in their order. Selecting needs a dimension
  \<open>time\<close> (\<^verbatim>\<open>ValueError\<close> otherwise) that carries an index to look the labels up in
  (\<^verbatim>\<open>TypeError\<close> otherwise). \<^verbatim>\<open>xr.decode_cf\<close> decodes the timestamps, which the
  embedding holds decoded already, and \<open>coords\<close> are the coordinates as they are after it.
\<close>

definition year_of :: "int \<Rightarrow> int" where
  "year_of t = t div 12"

definition time_slice :: "int \<times> int" where
  "time_slice = (1850, 2100)"

definition in_slice :: "int \<times> int \<Rightarrow> int \<Rightarrow> bool" where
  "in_slice sl t \<longleftrightarrow> fst sl \<le> year_of t \<and> year_of t \<le> snd sl"

text \<open>
  \<^verbatim>\<open>time_slice = slice('1850','2100')\<close> and \<^verbatim>\<open>ds.sel(time=time_slice)\<close>. Selecting needs a
  dimension \<open>time\<close> (\<^verbatim>\<open>KeyError\<close> otherwise) that carries an index to look the labels up
  in (\<^verbatim>\<open>TypeError\<close> otherwise). The label slice is resolved on the index of the time axis:
  on an increasing axis it is the block of the steps whose year lies in the closed range;
  on a decreasing axis the slice from the earlier to the later label is empty; on an axis
  that is neither, the lookup of the bound raises \<^verbatim>\<open>KeyError\<close>. The selection sets the size
  of the dimension \<open>time\<close> to the number of steps kept. \<^verbatim>\<open>xr.decode_cf\<close> decodes the
  timestamps, which the embedding holds decoded already, and \<open>coords\<close> are the coordinates
  as they are after it.
\<close>

definition resize_time :: "nat \<Rightarrow> (string \<times> nat) list \<Rightarrow> (string \<times> nat) list" where
  "resize_time n sizes = map (\<lambda>(name, k). if name = ''time'' then (name, n) else (name, k)) sizes"

definition select_steps :: "(int \<times> grid) list \<Rightarrow> dataset \<Rightarrow> dataset" where
  "select_steps kept ds = ds\<lparr>dims := resize_time (length kept) (dims ds), steps := kept\<rparr>"

definition sel_time :: "int \<times> int \<Rightarrow> dataset \<Rightarrow> py_error + dataset" where
  "sel_time sl ds =
     (if ''time'' \<notin> dim_names ds then Inl (KeyError ''time'')
      else if ''time'' \<notin> var_names ds then Inl (TypeError ''slice indices must be integers'')
      else if sorted (map fst (steps ds))
        then Inr (select_steps (filter (\<lambda>(t, g). in_slice sl t) (steps ds)) ds)
      else if sorted (rev (map fst (steps ds))) then Inr (select_steps [] ds)
      else Inl (KeyError ''slice bound''))"

text \<open>
  \<^verbatim>\<open>for coord in ds.coords: if coord not in ['lat','lon','time']: ds = ds.drop(coord)\<close>
\<close>

definition drop_var :: "string \<Rightarrow> dataset \<Rightarrow> dataset" where
  "drop_var c ds = ds\<lparr>coords := removeAll c (coords ds), data_vars := removeAll c (data_vars ds)\<rparr>"

definition drop_step :: "string \<Rightarrow> dataset \<Rightarrow> dataset" where
  "drop_step coord ds = (if coord \<notin> set [''lat'', ''lon'', ''time''] then drop_var coord ds else ds)"

definition drop_coords :: "dataset \<Rightarrow> dataset" where
  "drop_coords ds = fold drop_step (coords ds) ds"

definition normalize_ds :: "dataset \<Rightarrow> py_error + dataset" where
  "normalize_ds ds =
     (case rename_spatial ds of Inl e \<Rightarrow> Inl e
      | Inr ds1 \<Rightarrow> (case sel_time time_slice ds1 of Inl e \<Rightarrow> Inl e
      | Inr ds2 \<Rightarrow> Inr (drop_coords ds2)))"

subsection \<open>Spatial Aggregator\<close>

text \<open>
  The outcome of a floating-point division: dividing by zero raises nothing in numpy, it
  yields NaN or an infinity.
\<close>

datatype npfloat = Fin real | PInf | NInf | NaN

definition fdiv :: "real \<Rightarrow> real \<Rightarrow> npfloat" where
  "fdiv a b = (if b \<noteq> 0 then Fin (a / b) else if a = 0 then NaN else if 0 < a then PInf else NInf)"

text \<open>
  \<^verbatim>\<open>ds[name]\<close>: the variable of that name; for a dimension that has no variable, xarray
  makes up the index \<open>0, 1, ..., size - 1\<close>; \<^verbatim>\<open>KeyError\<close> when the name is neither.
  Read as a field, such an index has one step for each position \<open>k\<close>, and broadcasts the
  number \<open>k\<close> to every cell of the weight grid it is multiplied with.
\<close>

definition lookup_axis :: "string \<Rightarrow> real list \<Rightarrow> dataset \<Rightarrow> py_error + real list" where
  "lookup_axis name vals ds =
     (if name \<in> var_names ds then Inr vals
      else (case map_of (dims ds) name of
              Some n \<Rightarrow> Inr (map real [0..<n])
            | None \<Rightarrow> Inl (KeyError name)))"

definition lookup_field :: "string \<Rightarrow> dataset \<Rightarrow> py_error + (int \<times> grid) list" where
  "lookup_field name ds =
     (if name \<in> var_names ds then Inr (steps ds)
      else (case map_of (dims ds) name of
              Some n \<Rightarrow> Inr (map (\<lambda>k. (int k, \<lambda>i j. Some (real k))) [0..<n])
            | None \<Rightarrow> Inl (KeyError name)))"

text \<open>
  \<^verbatim>\<open>cos_lat_2d = np.cos(np.deg2rad(ds['lat'])) * xr.ones_like(ds['lon'])\<close>: the two factors
  have the dimensions \<open>lat\<close> and \<open>lon\<close>, so the product is the two-dimensional array read
  at (latitude index, longitude index).
\<close>

definition deg2rad :: "real \<Rightarrow> real" where
  "deg2rad x = x * (pi / 180)"

definition ones_like :: "real list \<Rightarrow> real list" where
  "ones_like xs = map (\<lambda>_. 1) xs"

definition cos_lat_2d :: "real list \<Rightarrow> real list \<Rightarrow> nat \<Rightarrow> nat \<Rightarrow> real" where
  "cos_lat_2d lat lon i j = cos (deg2rad (lat ! i)) * (ones_like lon ! j)"

text \<open>
  \<^verbatim>\<open>.sum(dim=['lat','lon'])\<close> of an array of shape \<open>(n, m)\<close>. On floating-point data
  xarray sums with \<^verbatim>\<open>skipna\<close> on: a NaN cell is left out of the sum, and a sum of no
  cells at all is 0. A product with a NaN factor is NaN.
\<close>

definition sum_lat_lon :: "nat \<Rightarrow> nat \<Rightarrow> (nat \<Rightarrow> nat \<Rightarrow> real) \<Rightarrow> real" where
  "sum_lat_lon n m a = sum_list (map (\<lambda>i. sum_list (map (\<lambda>j. a i j) [0..<m])) [0..<n])"

fun skipna :: "real option \<Rightarrow> real" where
  "skipna None = 0"
| "skipna (Some x) = x"

definition mul_grid :: "grid \<Rightarrow> (nat \<Rightarrow> nat \<Rightarrow> real) \<Rightarrow> grid" where
  "mul_grid g w i j = (case g i j of None \<Rightarrow> None | Some x \<Rightarrow> Some (x * w i j))"

text \<open>
  \<^verbatim>\<open>gmst = (ds['tas'] * cos_lat_2d).sum(dim=['lat','lon']) / cos_lat_2d.sum(dim=['lat','lon'])\<close>,
  at one time step.
\<close>

definition weight_sum :: "real list \<Rightarrow> real list \<Rightarrow> real" where
  "weight_sum lat lon = sum_lat_lon (length lat) (length lon) (cos_lat_2d lat lon)"

definition gmst_step :: "real list \<Rightarrow> real list \<Rightarrow> grid \<Rightarrow> npfloat" where
  "gmst_step lat lon g =
     fdiv (sum_lat_lon (length lat) (length lon) (\<lambda>i j. skipna (mul_grid g (cos_lat_2d lat lon) i j)))
          (weight_sum lat lon)"

type_synonym series = "(int \<times> npfloat) list"

text \<open>
  The two statements on a dataset: the three lookups in the order the statements make
  them, then the sums, which raise \<^verbatim>\<open>ValueError\<close> unless \<open>lat\<close> and \<open>lon\<close> are
  dimensions.
\<close>

definition spatial_aggregate :: "dataset \<Rightarrow> py_error + series" where
  "spatial_aggregate ds =
     (case lookup_axis ''lat'' (lat_vals ds) ds of Inl e \<Rightarrow> Inl e
      | Inr lat \<Rightarrow> (case lookup_axis ''lon'' (lon_vals ds) ds of Inl e \<Rightarrow> Inl e
      | Inr lon \<Rightarrow> (case lookup_field ''tas'' ds of Inl e \<Rightarrow> Inl e
      | Inr tas \<Rightarrow>
          if ''lat'' \<notin> dim_names ds \<or> ''lon'' \<notin> dim_names ds
          then Inl (ValueError ''dimensions not found'')
          else Inr (map (\<lambda>(t, g). (t, gmst_step lat lon g)) tas))))"

text \<open>
  The body of the loader loop: it returns what the loop stores in \<^verbatim>\<open>gmst_dict\<close> and
  \<^verbatim>\<open>ds_dict\<close> under the run's name, or raises.
\<close>

definition loader_body :: "dataset \<Rightarrow> py_error + (series \<times> dataset)" where
  "loader_body ds =
     (case normalize_ds ds of Inl e \<Rightarrow> Inl e
      | Inr ds' \<Rightarrow> (case spatial_aggregate ds' of Inl e \<Rightarrow> Inl e
      | Inr gmst \<Rightarrow> Inr (gmst, ds')))"

subsection \<open>Scenario Splicer\<close>

text \<open>
  \<^verbatim>\<open>xr.concat([a, b], dim='time')\<close> of two series: the steps of \<open>a\<close>, then those of \<open>b\<close>.
\<close>

definition xr_concat :: "'a list \<Rightarrow> 'a list \<Rightarrow> 'a list" where
  "xr_concat a b = a @ b"

text \<open>
  The inner loop over \<^verbatim>\<open>gmst_dict.items()\<close>: each round extracts the model name again,
  \<^verbatim>\<open>name.split(".")[2]\<close>, and a historical key that contains it replaces the companion
  found so far.
\<close>

fun find_hist :: "string \<Rightarrow> (string \<times> 'v) list \<Rightarrow> 'v option \<Rightarrow> py_error + 'v option" where
  "find_hist name [] add_hist = Inr add_hist"
| "find_hist name ((hist_name, hist_gmst) # rest) add_hist =
     (case getitem (split_on CHR ''.'' name) 2 of
        Inl e \<Rightarrow> Inl e
      | Inr model_name \<Rightarrow>
          find_hist name rest
            (if str_in model_name hist_name \<and> str_in ''historical'' hist_name
             then Some hist_gmst else add_hist))"

text \<open>
  The outer loop: \<open>d\<close> is the whole dictionary, the second argument what is left of it,
  the third the dictionary \<^verbatim>\<open>gmst_ssp_dict\<close> built so far.
\<close>

fun splice_loop :: "(string \<times> 'a list) list \<Rightarrow> (string \<times> 'a list) list \<Rightarrow>
    (string \<times> 'a list) list \<Rightarrow> py_error + (string \<times> 'a list) list" where
  "splice_loop d [] out = Inr out"
| "splice_loop d ((name, gmst) # rest) out =
     (if \<not> str_in ''ssp'' name then splice_loop d rest out
      else (case find_hist name d None of
              Inl e \<Rightarrow> Inl e
            | Inr None \<Rightarrow> splice_loop d rest out
            | Inr (Some add_hist_gmst) \<Rightarrow>
                splice_loop d rest (AList.update name (xr_concat add_hist_gmst gmst) out)))"

definition splice :: "(string \<times> 'a list) list \<Rightarrow> py_error + (string \<times> 'a list) list" where
  "splice gmst_dict = splice_loop gmst_dict gmst_dict []"

subsection \<open>Hypotheses of the properties and the specification's formula\<close>

text \<open>
  What it means for a dataset to use one of the two naming conventions, to have a time
  axis, to follow neither convention, and to lack the temperature variable.
\<close>

definition short_convention :: "dataset \<Rightarrow> bool" where
  "short_convention ds \<longleftrightarrow>
     {''lat'', ''lon''} \<subseteq> dim_names ds \<and> {''lat'', ''lon''} \<subseteq> set (coords ds) \<and>
     \<not> (''longitude'' \<in> dim_names ds \<and> ''latitude'' \<in> dim_names ds)"


definition has_time :: "dataset \<Rightarrow> bool" where
  "has_time ds \<longleftrightarrow> ''time'' \<in> dim_names ds \<and> ''time'' \<in> set (coords ds)"

definition neither_convention :: "dataset \<Rightarrow> bool" where
  "neither_convention ds \<longleftrightarrow>
     \<not> {''lat'', ''lon''} \<subseteq> dim_names ds \<and> \<not> {''latitude'', ''longitude''} \<subseteq> dim_names ds"

definition tas_absent :: "dataset \<Rightarrow> bool" where
  "tas_absent ds \<longleftrightarrow> ''tas'' \<notin> set (data_vars ds) \<and> ''tas'' \<notin> dim_names ds"

text \<open>
  A gridded field is a dataset on which the three names that the aggregator reads resolve
  to variables, over the dimensions \<open>lat\<close> and \<open>lon\<close>. A grid of shape \<open>(n, m)\<close> is
  entirely missing when every cell is NaN, fully defined when none is.
\<close>

definition gridded :: "dataset \<Rightarrow> bool" where
  "gridded ds \<longleftrightarrow>
     ''lat'' \<in> var_names ds \<and> ''lon'' \<in> var_names ds \<and> ''tas'' \<in> var_names ds \<and>
     ''lat'' \<in> dim_names ds \<and> ''lon'' \<in> dim_names ds"

definition entirely_missing :: "nat \<Rightarrow> nat \<Rightarrow> grid \<Rightarrow> bool" where
  "entirely_missing n m g \<longleftrightarrow> (\<forall>i<n. \<forall>j<m. g i j = None)"


text \<open>
  The Spatial Aggregator in the spec's words: the weight of a cell is the cosine of its
  latitude in radians, and the value of a time step is the sum of field times weight over
  all cells, divided by the sum of the weights over all cells. An undefined value
  propagates, with no imputation: a step with a missing cell has no defined mean.
  \<open>spec_mean_present\<close> is the other reading of a weighted mean on a grid with missing
  cells, the mean of the cells that are present under their own weights.
\<close>

definition spec_weight :: "real \<Rightarrow> real" where
  "spec_weight lat_deg = cos (lat_deg * pi / 180)"



text \<open>
  Every future key has the three fields that the extraction of the model name reads; the
  historical runs that match a future key, in iteration order.
\<close>

definition well_keyed :: "(string \<times> 'v) list \<Rightarrow> bool" where
  "well_keyed d \<longleftrightarrow>
     (\<forall>(name, s) \<in> set d. str_in ''ssp'' name \<longrightarrow> 3 \<le> length (split_on CHR ''.'' name))"

definition hist_matches :: "string \<Rightarrow> (string \<times> 'v) list \<Rightarrow> (string \<times> 'v) list" where
  "hist_matches name d =
     filter (\<lambda>(hist_name, v). str_in (split_on CHR ''.'' name ! 2) hist_name \<and>
                              str_in ''historical'' hist_name) d"

subsection \<open>Example inputs\<close>


definition const_grid :: "real \<Rightarrow> grid" where
  "const_grid v i j = Some v"

definition missing_grid :: grid where
  "missing_grid i j = None"


definition example_xy :: dataset where
  "example_xy =
     \<lparr>dims = [(''time'', 1), (''y'', 1), (''x'', 1)],
      coords = [''time'', ''y'', ''x''],
      data_vars = [''tas''],
      lat_vals = [0], lon_vals = [0],
      steps = [(22200, const_grid 280)]\<rparr>"

definition example_mixed :: dataset where
  "example_mixed =
     \<lparr>dims = [(''time'', 1), (''latitude'', 1), (''lon'', 1)],
      coords = [''time'', ''latitude'', ''lon''],
      data_vars = [''tas''],
      lat_vals = [0], lon_vals = [0],
      steps = [(22200, const_grid 280)]\<rparr>"


definition example_missing :: dataset where
  "example_missing =
     \<lparr>dims = [(''time'', 2), (''lat'', 2), (''lon'', 2)],
      coords = [''lat'', ''lon'', ''time''],
      data_vars = [''tas''],
      lat_vals = [0, 60], lon_vals = [0, 90],
      steps = [(22200, const_grid 288), (22201, missing_grid)]\<rparr>"



definition example_unordered :: dataset where
  "example_unordered =
     \<lparr>dims = [(''time'', 3), (''lat'', 1), (''lon'', 1)],
      coords = [''lat'', ''lon'', ''time''],
      data_vars = [''tas''],
      lat_vals = [0], lon_vals = [0],
      steps = [(22201, const_grid 280), (22200, const_grid 281), (22202, const_grid 282)]\<rparr>"

definition example_runs :: "(string \<times> int list) list" where
  "example_runs =
     [(''CMIP.NCAR.CESM2.historical'', [1, 2]),
      (''ScenarioMIP.NCAR.CESM2.ssp585'', [3]),
      (''CMIP.NCAR.CESM2-WACCM.historical'', [7, 8]),
      (''ScenarioMIP.MOHC.UKESM1.ssp585'', [9])]"

definition example_short_key :: "(string \<times> int list) list" where
  "example_short_key = [(''CMIP.NCAR.CESM2.historical'', [1, 2]), (''CESM2.ssp585'', [3])]"

definition example_hist :: series where
  "example_hist = [(22200, Fin 1), (22201, Fin 2)]"

definition example_fut :: series where
  "example_fut = [(22202, Fin 3), (22203, NaN)]"

section \<open>Properties\<close>

subsection \<open>The string operations and the calendar on examples\<close>

lemma split_on_examples:
  "split_on CHR ''.'' ''CMIP.NCAR.CESM2.historical'' = [''CMIP'', ''NCAR'', ''CESM2'', ''historical'']"
  "split_on CHR ''.'' ''a.'' = [''a'', []]"
  "split_on CHR ''.'' [] = [[]]"
  by simp_all

lemma calendar_examples:
  "year_of 22200 = 1850" "year_of 25211 = 2100" "year_of 22199 = 1849" "year_of 25212 = 2101"
  by (simp_all add: year_of_def)

subsection \<open>Loader/Normalizer\<close>

lemma fold_drop_fields:
  "dims (fold drop_step cs d) = dims d
   \<and> steps (fold drop_step cs d) = steps d
   \<and> lat_vals (fold drop_step cs d) = lat_vals d
   \<and> lon_vals (fold drop_step cs d) = lon_vals d"
  by (induction cs arbitrary: d) (simp_all add: drop_step_def drop_var_def)

lemma fold_drop_coords:
  "coords (fold drop_step cs d)
     = filter (\<lambda>c. c \<in> {''lat'', ''lon'', ''time''} \<or> c \<notin> set cs) (coords d)"
proof (induction cs arbitrary: d)
  case Nil
  show ?case by simp
next
  case (Cons c cs)
  show ?case
  proof (cases "c \<in> {''lat'', ''lon'', ''time''}")
    case True
    then have "c = ''lat'' \<or> c = ''lon'' \<or> c = ''time''" by simp
    then show ?thesis
      using Cons.IH [of d] by (auto simp: drop_step_def intro!: filter_cong)
  next
    case False
    then have *: "c \<noteq> ''lat''" "c \<noteq> ''lon''" "c \<noteq> ''time''" by simp_all
    have "coords (drop_var c d) = filter (\<lambda>x. x \<noteq> c) (coords d)"
      by (simp add: drop_var_def removeAll_filter_not_eq) (metis)
    then show ?thesis
      using Cons.IH [of "drop_var c d"] * by (auto simp: drop_step_def intro!: filter_cong)
  qed
qed

lemma fold_drop_data_vars:
  "data_vars (fold drop_step cs d)
     = filter (\<lambda>c. c \<in> {''lat'', ''lon'', ''time''} \<or> c \<notin> set cs) (data_vars d)"
proof (induction cs arbitrary: d)
  case Nil
  show ?case by simp
next
  case (Cons c cs)
  show ?case
  proof (cases "c \<in> {''lat'', ''lon'', ''time''}")
    case True
    then have "c = ''lat'' \<or> c = ''lon'' \<or> c = ''time''" by simp
    then show ?thesis
      using Cons.IH [of d] by (auto simp: drop_step_def intro!: filter_cong)
  next
    case False
    then have *: "c \<noteq> ''lat''" "c \<noteq> ''lon''" "c \<noteq> ''time''" by simp_all
    have "data_vars (drop_var c d) = filter (\<lambda>x. x \<noteq> c) (data_vars d)"
      by (simp add: drop_var_def removeAll_filter_not_eq) (metis)
    then show ?thesis
      using Cons.IH [of "drop_var c d"] * by (auto simp: drop_step_def intro!: filter_cong)
  qed
qed

lemma coords_drop_coords:
  "coords (drop_coords ds) = filter (\<lambda>c. c \<in> {''lat'', ''lon'', ''time''}) (coords ds)"
  unfolding drop_coords_def fold_drop_coords by (auto intro!: filter_cong)

lemma data_vars_drop_coords:
  "data_vars (drop_coords ds) = filter (\<lambda>c. c \<in> {''lat'', ''lon'', ''time''} \<or> c \<notin> set (coords ds)) (data_vars ds)"
  unfolding drop_coords_def fold_drop_data_vars by simp

lemma fields_drop_coords:
  "dims (drop_coords ds) = dims ds" "steps (drop_coords ds) = steps ds"
  "lat_vals (drop_coords ds) = lat_vals ds" "lon_vals (drop_coords ds) = lon_vals ds"
  unfolding drop_coords_def using fold_drop_fields [of "coords ds" ds] by simp_all


lemma rename_name_canonical [simp]:
  "rename_name n \<noteq> ''latitude''" "rename_name n \<noteq> ''longitude''"
  "''latitude'' \<noteq> rename_name n" "''longitude'' \<noteq> rename_name n"
  "rename_name ''lat'' = ''lat''" "rename_name ''lon'' = ''lon''" "rename_name ''time'' = ''time''"
  "rename_name ''latitude'' = ''lat''" "rename_name ''longitude'' = ''lon''"
  by (simp_all add: rename_name_def)

lemma dim_names_rename:
  "fst ` (\<lambda>(n, k). (rename_name n, k)) ` S = rename_name ` fst ` S"
  by force

lemma dim_names_drop_coords [simp]: "dim_names (drop_coords ds) = dim_names ds"
  by (simp add: dim_names_def fields_drop_coords)

lemma names_resize_time: "map fst (resize_time n sizes) = map fst sizes"
  by (induction sizes) (auto simp: resize_time_def)

lemma dim_names_select_steps [simp]: "dim_names (select_steps kept ds) = dim_names ds"
proof -
  have "set (map fst (resize_time (length kept) (dims ds))) = set (map fst (dims ds))"
    by (simp only: names_resize_time)
  then show ?thesis
    by (simp add: dim_names_def select_steps_def)
qed

lemma fields_select_steps [simp]:
  "coords (select_steps kept ds) = coords ds" "data_vars (select_steps kept ds) = data_vars ds"
  "lat_vals (select_steps kept ds) = lat_vals ds" "lon_vals (select_steps kept ds) = lon_vals ds"
  "steps (select_steps kept ds) = kept"
  "dims (select_steps kept ds) = resize_time (length kept) (dims ds)"
  by (simp_all add: select_steps_def)


lemma sel_time_Inr:
  assumes "sel_time sl ds = Inr g"
  shows "coords g = coords ds" and "data_vars g = data_vars ds"
    and "dims g = resize_time (length (steps g)) (dims ds)" and "dim_names g = dim_names ds"
  using assms by (auto simp: sel_time_def split: if_splits)

lemma sel_time_Inl:
  "sel_time sl ds = Inl e \<Longrightarrow> exc_name e = ''KeyError'' \<or> exc_name e = ''TypeError''"
  by (auto simp: sel_time_def split: if_splits)

lemma rename_spatial_Inl: "rename_spatial ds = Inl e \<Longrightarrow> exc_name e = ''ValueError''"
  by (auto simp: rename_spatial_def rename_ds_def split: if_splits)

lemma rename_spatial_skip:
  "\<not> (''longitude'' \<in> dim_names ds \<and> ''latitude'' \<in> dim_names ds) \<Longrightarrow> rename_spatial ds = Inr ds"
  by (auto simp: rename_spatial_def)

lemma rename_spatial_Inr:
  assumes "rename_spatial ds = Inr ds1"
    and "''longitude'' \<in> dim_names ds" and "''latitude'' \<in> dim_names ds"
  shows "dim_names ds1 = rename_name ` dim_names ds" and "coords ds1 = map rename_name (coords ds)"
    and "data_vars ds1 = map rename_name (data_vars ds)" and "steps ds1 = steps ds"
proof -
  have e: "ds1 = ds\<lparr>dims := map (\<lambda>(n, k). (rename_name n, k)) (dims ds),
                     coords := map rename_name (coords ds),
                     data_vars := map rename_name (data_vars ds)\<rparr>"
    using assms by (simp add: rename_spatial_def rename_ds_def split: if_splits)
  show "dim_names ds1 = rename_name ` dim_names ds"
    by (simp add: e dim_names_def dim_names_rename)
  show "coords ds1 = map rename_name (coords ds)" "data_vars ds1 = map rename_name (data_vars ds)"
    "steps ds1 = steps ds"
    by (simp_all add: e)
qed



lemma normalize_ds_Inr:
  assumes "normalize_ds ds = Inr g"
  shows "\<exists>ds1 ds2. rename_spatial ds = Inr ds1 \<and> sel_time time_slice ds1 = Inr ds2 \<and>
                   g = drop_coords ds2"
  using assms by (auto simp: normalize_ds_def split: sum.splits)



lemma unordered_axis_raises:
  "short_convention example_unordered \<and> has_time example_unordered \<and>
   normalize_ds example_unordered = Inl (KeyError ''slice bound'')"
  by (simp add: short_convention_def has_time_def normalize_ds_def rename_spatial_def
      sel_time_def example_unordered_def dim_names_def var_names_def)

lemma normalize_Inl:
  assumes "normalize_ds ds = Inl e"
  shows "exc_name e = ''KeyError'' \<or> exc_name e = ''ValueError'' \<or> exc_name e = ''TypeError''"
proof (cases "rename_spatial ds")
  case (Inl e')
  with assms have "e' = e" by (simp add: normalize_ds_def)
  with rename_spatial_Inl [OF Inl] show ?thesis by simp
next
  case (Inr ds1)
  with assms have "sel_time time_slice ds1 = Inl e"
    by (simp add: normalize_ds_def split: sum.splits)
  from sel_time_Inl [OF this] show ?thesis by blast
qed

lemma normalize_Inr:
  assumes "normalize_ds ds = Inr g"
  shows "set (coords g) \<subseteq> {''lat'', ''lon'', ''time''}"
    and "''longitude'' \<in> dim_names ds \<and> ''latitude'' \<in> dim_names ds \<Longrightarrow>
           dim_names g = rename_name ` dim_names ds \<and>
           set (data_vars g) \<subseteq> rename_name ` set (data_vars ds)"
    and "\<not> (''longitude'' \<in> dim_names ds \<and> ''latitude'' \<in> dim_names ds) \<Longrightarrow>
           dims g = resize_time (length (steps g)) (dims ds) \<and>
           set (data_vars g) \<subseteq> set (data_vars ds)"
proof -
  from normalize_ds_Inr [OF assms] obtain ds1 ds2 where
    r: "rename_spatial ds = Inr ds1" and s: "sel_time time_slice ds1 = Inr ds2"
    and g: "g = drop_coords ds2"
    by (elim exE conjE)
  note q = sel_time_Inr [OF s]
  show "set (coords g) \<subseteq> {''lat'', ''lon'', ''time''}"
    by (auto simp: g coords_drop_coords)
  have dv: "set (data_vars g) \<subseteq> set (data_vars ds1)"
    by (auto simp: g data_vars_drop_coords q(2))
  have dn: "dim_names g = dim_names ds1"
    by (simp add: g q(4))
  {
    assume b: "''longitude'' \<in> dim_names ds \<and> ''latitude'' \<in> dim_names ds"
    note p = rename_spatial_Inr [OF r conjunct1 [OF b] conjunct2 [OF b]]
    from dv have "set (data_vars g) \<subseteq> rename_name ` set (data_vars ds)"
      by (simp add: p(3))
    with dn show "dim_names g = rename_name ` dim_names ds \<and>
           set (data_vars g) \<subseteq> rename_name ` set (data_vars ds)"
      by (simp add: p(1))
  }
  {
    assume nb: "\<not> (''longitude'' \<in> dim_names ds \<and> ''latitude'' \<in> dim_names ds)"
    from rename_spatial_skip [OF nb] r have e: "ds1 = ds" by simp
    have "dims g = resize_time (length (steps g)) (dims ds)"
      using q(3) by (simp add: g fields_drop_coords e)
    with dv show "dims g = resize_time (length (steps g)) (dims ds) \<and>
           set (data_vars g) \<subseteq> set (data_vars ds)"
      by (simp add: e)
  }
qed

lemma normalize_Inr_names:
  assumes "normalize_ds ds = Inr g"
    and "\<not> (''longitude'' \<in> dim_names ds \<and> ''latitude'' \<in> dim_names ds)"
  shows "map fst (dims g) = map fst (dims ds)" and "dim_names g = dim_names ds"
proof -
  from normalize_Inr(3) [OF assms] have "dims g = resize_time (length (steps g)) (dims ds)" ..
  then show "map fst (dims g) = map fst (dims ds)"
    by (simp add: names_resize_time)
  then have "set (map fst (dims g)) = set (map fst (dims ds))" by simp
  then show "dim_names g = dim_names ds" by (simp add: dim_names_def)
qed

lemma spatial_aggregate_Inl:
  "spatial_aggregate g = Inl e \<Longrightarrow> exc_name e = ''KeyError'' \<or> exc_name e = ''ValueError''"
  by (auto simp: spatial_aggregate_def lookup_axis_def lookup_field_def
      split: sum.splits if_splits option.splits)

lemma spatial_aggregate_no_dims:
  "''lat'' \<notin> dim_names g \<or> ''lon'' \<notin> dim_names g \<Longrightarrow> \<exists>e. spatial_aggregate g = Inl e"
  by (auto simp: spatial_aggregate_def split: sum.splits)

lemma spatial_aggregate_no_tas:
  assumes "''tas'' \<notin> var_names g" and "''tas'' \<notin> dim_names g"
  shows "\<exists>e. spatial_aggregate g = Inl e"
proof -
  have "map_of (dims g) ''tas'' = None"
    using assms(2) by (simp add: map_of_eq_None_iff dim_names_def)
  then have "lookup_field ''tas'' g = Inl (KeyError ''tas'')"
    using assms(1) by (simp add: lookup_field_def)
  then show ?thesis
    by (simp add: spatial_aggregate_def split: sum.splits)
qed

lemma rename_name_tas: "rename_name n = ''tas'' \<longleftrightarrow> n = ''tas''"
  by (simp add: rename_name_def)

lemma tas_rename_image: "''tas'' \<in> rename_name ` S \<longleftrightarrow> ''tas'' \<in> S"
proof
  assume "''tas'' \<in> rename_name ` S"
  then obtain x where x: "''tas'' = rename_name x" "x \<in> S" by (rule imageE)
  from x(1) have "rename_name x = ''tas''" by (rule sym)
  then have "x = ''tas''" by (simp only: rename_name_tas)
  with x(2) show "''tas'' \<in> S" by simp
next
  assume "''tas'' \<in> S"
  then have "rename_name ''tas'' \<in> rename_name ` S" by (rule imageI)
  then show "''tas'' \<in> rename_name ` S" by (simp add: rename_name_def)
qed

text \<open>
  Claim C6, as amended. When the dimensions follow neither naming convention, or the
  dataset has no data variable \<open>tas\<close> (and no dimension of that name), the body of the
  loader loop fails, and the exception is one of the array library: a \<^verbatim>\<open>KeyError\<close>, a
  \<^verbatim>\<open>ValueError\<close> or a \<^verbatim>\<open>TypeError\<close>. The code has no exception named
  \<^verbatim>\<open>UnsupportedSchema\<close>.
\<close>

theorem loader_schema_failure:
  assumes "neither_convention ds \<or> tas_absent ds"
  shows "\<exists>e. loader_body ds = Inl e \<and> exc_name e \<in> {''KeyError'', ''ValueError'', ''TypeError''}"
proof (cases "normalize_ds ds")
  case (Inl e)
  then show ?thesis
    using normalize_Inl [of ds e] by (auto simp: loader_body_def)
next
  case (Inr g)
  note n = normalize_Inr [OF Inr]
  have "\<exists>e. spatial_aggregate g = Inl e"
    using assms
  proof
    assume a: "neither_convention ds"
    then have nb: "\<not> (''longitude'' \<in> dim_names ds \<and> ''latitude'' \<in> dim_names ds)"
      by (auto simp: neither_convention_def)
    from normalize_Inr_names(2) [OF Inr nb] have "dim_names g = dim_names ds" .
    with a have "''lat'' \<notin> dim_names g \<or> ''lon'' \<notin> dim_names g"
      by (auto simp: neither_convention_def)
    then show ?thesis by (rule spatial_aggregate_no_dims)
  next
    assume a: "tas_absent ds"
    have c: "''tas'' \<notin> set (coords g)" using n(1) by auto
    have t: "''tas'' \<notin> rename_name ` set (data_vars ds)" "''tas'' \<notin> set (data_vars ds)"
      "''tas'' \<notin> rename_name ` dim_names ds" "''tas'' \<notin> dim_names ds"
      using a by (simp_all add: tas_absent_def tas_rename_image)
    have "''tas'' \<notin> set (data_vars g) \<and> ''tas'' \<notin> dim_names g"
    proof (cases "''longitude'' \<in> dim_names ds \<and> ''latitude'' \<in> dim_names ds")
      case True
      from n(2) [OF True] t show ?thesis by auto
    next
      case False
      from n(3) [OF False] normalize_Inr_names(2) [OF Inr False] t show ?thesis by auto
    qed
    with c show ?thesis
      by (intro spatial_aggregate_no_tas) (simp_all add: var_names_def)
  qed
  then obtain e where e: "spatial_aggregate g = Inl e" ..
  then show ?thesis
    using Inr spatial_aggregate_Inl [OF e] by (auto simp: loader_body_def)
qed

lemma normalize_example_xy:
  "normalize_ds example_xy = Inr (example_xy\<lparr>coords := [''time'']\<rparr>)"
  by (simp add: normalize_ds_def rename_spatial_def sel_time_def select_steps_def resize_time_def
      drop_coords_def drop_step_def drop_var_def
      example_xy_def dim_names_def var_names_def in_slice_def time_slice_def year_of_def)

text \<open>
  Claim C6 as stated fails: a dataset with the dimensions \<open>time\<close>, \<open>y\<close>, \<open>x\<close> follows
  neither convention, and the loader body raises \<^verbatim>\<open>KeyError\<close> at \<^verbatim>\<open>ds['lat']\<close>.
\<close>

theorem loader_schema_failure_counterexample:
  "neither_convention example_xy \<and> loader_body example_xy = Inl (KeyError ''lat'') \<and>
   exc_name (KeyError ''lat'') \<noteq> ''UnsupportedSchema''"
  by (simp add: loader_body_def normalize_example_xy neither_convention_def
      spatial_aggregate_def lookup_axis_def)
     (simp add: example_xy_def dim_names_def var_names_def)

theorem loader_schema_failure_witness:
  "neither_convention example_xy \<and>
   (\<exists>e. loader_body example_xy = Inl e \<and> exc_name e \<in> {''KeyError'', ''ValueError'', ''TypeError''})"
proof -
  have h: "neither_convention example_xy"
    by (simp add: neither_convention_def example_xy_def dim_names_def)
  from loader_schema_failure [OF disjI1 [OF h]] h show ?thesis by (intro conjI)
qed

text \<open>
  Claim C9. When exactly one of \<open>latitude\<close> and \<open>longitude\<close> is a dimension, the rename is
  skipped and the dataset is left as it is; whatever the rest of the normaliser returns has
  the dimension names of the input, in their order, the long name among them, and every
  dimension but \<open>time\<close> keeps its size.
\<close>

theorem rename_needs_both_long_names:
  assumes "(''latitude'' \<in> dim_names ds) \<noteq> (''longitude'' \<in> dim_names ds)"
  shows "rename_spatial ds = Inr ds \<and>
         (\<forall>g. normalize_ds ds = Inr g \<longrightarrow>
              map fst (dims g) = map fst (dims ds) \<and>
              dims g = resize_time (length (steps g)) (dims ds) \<and>
              (''latitude'' \<in> dim_names g \<or> ''longitude'' \<in> dim_names g))"
proof -
  have nb: "\<not> (''longitude'' \<in> dim_names ds \<and> ''latitude'' \<in> dim_names ds)"
    using assms by blast
  then have r: "rename_spatial ds = Inr ds"
    by (rule rename_spatial_skip)
  have "map fst (dims g) = map fst (dims ds) \<and>
        dims g = resize_time (length (steps g)) (dims ds) \<and>
        (''latitude'' \<in> dim_names g \<or> ''longitude'' \<in> dim_names g)"
    if "normalize_ds ds = Inr g" for g
  proof -
    note m = normalize_Inr_names [OF that nb]
    from normalize_Inr(3) [OF that nb] have "dims g = resize_time (length (steps g)) (dims ds)" ..
    with m assms show ?thesis by blast
  qed
  with r show ?thesis by blast
qed

theorem rename_needs_both_long_names_witness:
  "(''latitude'' \<in> dim_names example_mixed) \<noteq> (''longitude'' \<in> dim_names example_mixed) \<and>
   rename_spatial example_mixed = Inr example_mixed \<and>
   normalize_ds example_mixed = Inr (example_mixed\<lparr>coords := [''time'', ''lon'']\<rparr>) \<and>
   ''latitude'' \<in> dim_names (example_mixed\<lparr>coords := [''time'', ''lon'']\<rparr>)"
proof -
  have h: "(''latitude'' \<in> dim_names example_mixed) \<noteq> (''longitude'' \<in> dim_names example_mixed)"
    by (simp add: example_mixed_def dim_names_def)
  have n: "normalize_ds example_mixed = Inr (example_mixed\<lparr>coords := [''time'', ''lon'']\<rparr>)"
    by (simp add: normalize_ds_def rename_spatial_def sel_time_def select_steps_def resize_time_def
        drop_coords_def drop_step_def drop_var_def
        example_mixed_def dim_names_def var_names_def in_slice_def time_slice_def year_of_def)
  from rename_needs_both_long_names [OF h] n h show ?thesis
    by (simp add: dim_names_def example_mixed_def)
qed

subsection \<open>Spatial Aggregator\<close>

lemma sum_list_upt_sum: "sum_list (map f [0..<n]) = (\<Sum>i<n. f i)"
  by (simp add: sum_list_sum_nth atLeast0LessThan)

lemma sum_lat_lon_sum: "sum_lat_lon n m a = (\<Sum>i<n. \<Sum>j<m. a i j)"
  by (simp add: sum_lat_lon_def sum_list_upt_sum)

lemma cos_lat_2d_weight:
  "j < length lon \<Longrightarrow> cos_lat_2d lat lon i j = spec_weight (lat ! i)"
  by (simp add: cos_lat_2d_def ones_like_def deg2rad_def spec_weight_def)

lemma skipna_mul_grid: "skipna (mul_grid g w i j) = skipna (g i j) * w i j"
  by (simp add: mul_grid_def split: option.splits)

lemma weight_sum_spec: "weight_sum lat lon = (\<Sum>i<length lat. \<Sum>j<length lon. spec_weight (lat ! i))"
  by (simp add: weight_sum_def sum_lat_lon_sum cos_lat_2d_weight)

lemma gmst_step_fdiv:
  "gmst_step lat lon g =
     fdiv (\<Sum>i<length lat. \<Sum>j<length lon. skipna (g i j) * spec_weight (lat ! i)) (weight_sum lat lon)"
  by (simp add: gmst_step_def sum_lat_lon_sum skipna_mul_grid cos_lat_2d_weight)


lemma spatial_aggregate_gridded:
  "gridded ds \<Longrightarrow>
   spatial_aggregate ds = Inr (map (\<lambda>(t, g). (t, gmst_step (lat_vals ds) (lon_vals ds) g)) (steps ds))"
  by (simp add: gridded_def spatial_aggregate_def lookup_axis_def lookup_field_def)


lemma spec_weight_values:
  "spec_weight 0 = 1" "spec_weight 60 = 1 / 2" "spec_weight 90 = 0"
  by (simp_all add: spec_weight_def cos_60)

lemma sum_lessThan_2: "(\<Sum>i<2. f i) = f 0 + f (1::nat)"
  by (simp add: numeral_2_eq_2)



lemma gmst_step_missing:
  assumes "entirely_missing (length lat) (length lon) g"
  shows "gmst_step lat lon g = (if weight_sum lat lon = 0 then NaN else Fin 0)"
proof -
  have "(\<Sum>i<length lat. \<Sum>j<length lon. skipna (g i j) * spec_weight (lat ! i)) = 0"
    using assms by (simp add: entirely_missing_def)
  then show ?thesis
    by (simp add: gmst_step_fdiv fdiv_def)
qed

text \<open>
  Claim C7, as amended. At a time step all of whose cells are missing, the first sum skips
  every cell and is 0, so the aggregator returns 0 whenever the weights do not add up to
  zero; the step is NaN only when they do.
\<close>

theorem aggregator_missing_step:
  assumes "gridded ds" and "k < length (steps ds)"
    and "entirely_missing (length (lat_vals ds)) (length (lon_vals ds)) (snd (steps ds ! k))"
  shows "\<exists>s. spatial_aggregate ds = Inr s \<and> length s = length (steps ds) \<and>
             s ! k = (fst (steps ds ! k),
                      if weight_sum (lat_vals ds) (lon_vals ds) = 0 then NaN else Fin 0)"
  using assms
  by (simp add: spatial_aggregate_gridded gmst_step_missing case_prod_unfold)

text \<open>
  Claim C7 as stated fails: on a two-by-two grid whose second time step is missing at every
  cell, the aggregator returns the number 0 for that step, not NaN.
\<close>

theorem aggregator_missing_step_counterexample:
  "gridded example_missing \<and>
   entirely_missing (length (lat_vals example_missing)) (length (lon_vals example_missing))
     (snd (steps example_missing ! 1)) \<and>
   spatial_aggregate example_missing = Inr [(22200, Fin 288), (22201, Fin 0)] \<and> Fin 0 \<noteq> NaN"
proof -
  have h: "gridded example_missing"
    by (simp add: gridded_def example_missing_def var_names_def dim_names_def)
  have m: "entirely_missing (length (lat_vals example_missing)) (length (lon_vals example_missing))
     (snd (steps example_missing ! 1))"
    by (simp add: example_missing_def entirely_missing_def missing_grid_def)
  have "gmst_step [0, 60] [0, 90] (const_grid 288) = Fin 288"
    "gmst_step [0, 60] [0, 90] missing_grid = Fin 0"
    by (simp_all add: gmst_step_fdiv weight_sum_spec sum_lessThan_2 spec_weight_values const_grid_def
        missing_grid_def fdiv_def)
  then have "spatial_aggregate example_missing = Inr [(22200, Fin 288), (22201, Fin 0)]"
    using h by (simp add: spatial_aggregate_gridded example_missing_def)
  with h m show ?thesis by simp
qed

theorem aggregator_missing_step_witness:
  "gridded example_missing \<and> 1 < length (steps example_missing) \<and>
   entirely_missing (length (lat_vals example_missing)) (length (lon_vals example_missing))
     (snd (steps example_missing ! 1)) \<and>
   (\<exists>s. spatial_aggregate example_missing = Inr s \<and> s ! 1 = (22201, Fin 0))"
proof -
  have h: "gridded example_missing"
    by (simp add: gridded_def example_missing_def var_names_def dim_names_def)
  have k: "1 < length (steps example_missing)"
    by (simp add: example_missing_def)
  have m: "entirely_missing (length (lat_vals example_missing)) (length (lon_vals example_missing))
     (snd (steps example_missing ! 1))"
    by (simp add: example_missing_def entirely_missing_def missing_grid_def)
  have w: "weight_sum (lat_vals example_missing) (lon_vals example_missing) = 3"
    by (simp add: example_missing_def weight_sum_spec sum_lessThan_2 spec_weight_values)
  have f: "fst (steps example_missing ! 1) = 22201"
    by (simp add: example_missing_def)
  from aggregator_missing_step [OF h k m]
  obtain s where s: "spatial_aggregate example_missing = Inr s \<and> length s = length (steps example_missing) \<and>
      s ! 1 = (fst (steps example_missing ! 1),
               if weight_sum (lat_vals example_missing) (lon_vals example_missing) = 0 then NaN else Fin 0)" ..
  with w f have "spatial_aggregate example_missing = Inr s \<and> s ! 1 = (22201, Fin 0)"
    by simp
  then have "\<exists>s. spatial_aggregate example_missing = Inr s \<and> s ! 1 = (22201, Fin 0)" ..
  with h k m show ?thesis by (intro conjI)
qed

subsection \<open>Scenario Splicer\<close>

lemma find_hist_ok:
  assumes "3 \<le> length (split_on CHR ''.'' name)"
  shows "find_hist name d acc =
           Inr (if hist_matches name d = [] then acc else Some (snd (last (hist_matches name d))))"
proof (induction d arbitrary: acc)
  case Nil
  show ?case by (simp add: hist_matches_def)
next
  case (Cons p d)
  obtain a b where p: "p = (a, b)" by (cases p)
  let ?m = "str_in (split_on CHR ''.'' name ! 2) a \<and> str_in ''historical'' a"
  have g: "getitem (split_on CHR ''.'' name) 2 = Inr (split_on CHR ''.'' name ! 2)"
    using assms by (simp add: getitem_def)
  have h: "hist_matches name (p # d) = (if ?m then (a, b) # hist_matches name d else hist_matches name d)"
    by (simp add: hist_matches_def p)
  have "find_hist name (p # d) acc = find_hist name d (if ?m then Some b else acc)"
    by (simp add: p g)
  also have "\<dots> = Inr (if hist_matches name d = [] then (if ?m then Some b else acc)
                         else Some (snd (last (hist_matches name d))))"
    by (rule Cons.IH)
  also have "\<dots> = Inr (if hist_matches name (p # d) = [] then acc
                         else Some (snd (last (hist_matches name (p # d)))))"
    unfolding h by simp
  finally show ?case .
qed

lemma find_hist_bad:
  assumes "length (split_on CHR ''.'' name) < 3" and "d \<noteq> []"
  shows "find_hist name d acc = Inl IndexError"
  using assms by (cases d) (auto simp: getitem_def)

lemma splice_loop_well:
  assumes "well_keyed rest"
  shows "\<exists>out'. splice_loop d rest out = Inr out'"
  using assms
proof (induction rest arbitrary: out)
  case Nil
  show ?case by simp
next
  case (Cons p rest)
  obtain name gmst where p: "p = (name, gmst)" by (cases p)
  from Cons.prems have w: "well_keyed rest"
    and k: "str_in ''ssp'' name \<longrightarrow> 3 \<le> length (split_on CHR ''.'' name)"
    by (auto simp: well_keyed_def p)
  show ?case
  proof (cases "str_in ''ssp'' name")
    case False
    then show ?thesis using Cons.IH [OF w] by (simp add: p)
  next
    case True
    with k have "3 \<le> length (split_on CHR ''.'' name)" by simp
    note f = find_hist_ok [OF this, of d None]
    show ?thesis
      using True Cons.IH [OF w] by (simp add: p f)
  qed
qed

lemma splice_loop_bad:
  assumes "\<not> well_keyed rest" and "d \<noteq> []"
  shows "splice_loop d rest out = Inl IndexError"
  using assms
proof (induction rest arbitrary: out)
  case Nil
  then show ?case by (simp add: well_keyed_def)
next
  case (Cons p rest)
  obtain name gmst where p: "p = (name, gmst)" by (cases p)
  show ?case
  proof (cases "str_in ''ssp'' name")
    case False
    with Cons.prems have "\<not> well_keyed rest" by (auto simp: well_keyed_def p)
    then show ?thesis using False Cons.IH Cons.prems(2) by (simp add: p)
  next
    case True
    show ?thesis
    proof (cases "3 \<le> length (split_on CHR ''.'' name)")
      case False
      then have "find_hist name d None = Inl IndexError"
        using Cons.prems(2) by (intro find_hist_bad) simp_all
      then show ?thesis using True by (simp add: p)
    next
      case ge: True
      with Cons.prems have "\<not> well_keyed rest" by (auto simp: well_keyed_def p)
      then have ih: "\<And>out. splice_loop d rest out = Inl IndexError"
        using Cons.IH Cons.prems(2) by simp
      show ?thesis
        using True by (simp add: p find_hist_ok [OF ge] ih)
    qed
  qed
qed

text \<open>
  Claim C10. When every key that contains \<open>ssp\<close> splits on the dot into three fields or
  more, the extraction of the model name never raises and the splicing loop returns its
  dictionary. When some such key has fewer fields, the loop raises \<^verbatim>\<open>IndexError\<close>: it ends
  there, with no entry for that run.
\<close>

theorem splice_model_name_index:
  "(well_keyed d \<longrightarrow> (\<exists>out. splice d = Inr out)) \<and>
   (\<not> well_keyed d \<longrightarrow> splice d = Inl IndexError)"
proof (intro conjI impI)
  assume "well_keyed d"
  then show "\<exists>out. splice d = Inr out"
    unfolding splice_def by (rule splice_loop_well)
next
  assume a: "\<not> well_keyed d"
  then have "d \<noteq> []" by (auto simp: well_keyed_def)
  with a show "splice d = Inl IndexError"
    unfolding splice_def by (rule splice_loop_bad)
qed

lemma splice_loop_lookup:
  assumes "well_keyed rest" and "distinct (map fst rest)"
  shows "\<exists>out'. splice_loop d rest out = Inr out' \<and>
           (\<forall>n. map_of out' n =
              (case map_of rest n of
                 None \<Rightarrow> map_of out n
               | Some s \<Rightarrow>
                   if str_in ''ssp'' n \<and> hist_matches n d \<noteq> []
                   then Some (xr_concat (snd (last (hist_matches n d))) s)
                   else map_of out n))"
  using assms
proof (induction rest arbitrary: out)
  case Nil
  show ?case by simp
next
  case (Cons p rest)
  obtain name gmst where p: "p = (name, gmst)" by (cases p)
  from Cons.prems have w: "well_keyed rest" and dr: "distinct (map fst rest)"
    and k: "str_in ''ssp'' name \<longrightarrow> 3 \<le> length (split_on CHR ''.'' name)"
    and fresh: "map_of rest name = None"
    by (auto simp: well_keyed_def p map_of_eq_None_iff)
  show ?case
  proof (cases "str_in ''ssp'' name \<and> hist_matches name d \<noteq> []")
    case False
    have step: "splice_loop d (p # rest) out = splice_loop d rest out"
    proof (cases "str_in ''ssp'' name")
      case True
      with k have "3 \<le> length (split_on CHR ''.'' name)" by simp
      from find_hist_ok [OF this, of d None] False True show ?thesis
        by (simp add: p)
    next
      case False
      then show ?thesis by (simp add: p)
    qed
    from Cons.IH [OF w dr, of out] obtain out' where
      o: "splice_loop d rest out = Inr out'" and
      l: "\<And>n. map_of out' n =
              (case map_of rest n of
                 None \<Rightarrow> map_of out n
               | Some s \<Rightarrow>
                   if str_in ''ssp'' n \<and> hist_matches n d \<noteq> []
                   then Some (xr_concat (snd (last (hist_matches n d))) s)
                   else map_of out n)"
      by blast
    have "map_of out' n =
              (case map_of (p # rest) n of
                 None \<Rightarrow> map_of out n
               | Some s \<Rightarrow>
                   if str_in ''ssp'' n \<and> hist_matches n d \<noteq> []
                   then Some (xr_concat (snd (last (hist_matches n d))) s)
                   else map_of out n)" for n
      using l [of n] False fresh by (cases "n = name") (auto simp: p)
    with step o show ?thesis by simp
  next
    case True
    then have ssp: "str_in ''ssp'' name" and m: "hist_matches name d \<noteq> []" by simp_all
    from k ssp have "3 \<le> length (split_on CHR ''.'' name)" by simp
    from find_hist_ok [OF this, of d None] m
    have f: "find_hist name d None = Inr (Some (snd (last (hist_matches name d))))" by simp
    let ?out2 = "AList.update name (xr_concat (snd (last (hist_matches name d))) gmst) out"
    have step: "splice_loop d (p # rest) out = splice_loop d rest ?out2"
      using ssp by (simp add: p f)
    from Cons.IH [OF w dr, of ?out2] obtain out' where
      o: "splice_loop d rest ?out2 = Inr out'" and
      l: "\<And>n. map_of out' n =
              (case map_of rest n of
                 None \<Rightarrow> map_of ?out2 n
               | Some s \<Rightarrow>
                   if str_in ''ssp'' n \<and> hist_matches n d \<noteq> []
                   then Some (xr_concat (snd (last (hist_matches n d))) s)
                   else map_of ?out2 n)"
      by blast
    have "map_of out' n =
              (case map_of (p # rest) n of
                 None \<Rightarrow> map_of out n
               | Some s \<Rightarrow>
                   if str_in ''ssp'' n \<and> hist_matches n d \<noteq> []
                   then Some (xr_concat (snd (last (hist_matches n d))) s)
                   else map_of out n)" for n
      using l [of n] True fresh
      by (cases "n = name") (auto simp: p update_conv' split: option.splits)
    with step o show ?thesis by simp
  qed
qed

text \<open>
  Claim C3. For a future run (its key contains \<open>ssp\<close>) of a dictionary with distinct keys,
  the companion is sought among the runs whose key contains both \<open>historical\<close> and the
  third dot-separated field of the future key. When there is none, the loop raises nothing
  and the output has no entry for the future run; when there are several, the output entry
  is the last of them in iteration order, followed by the future series.
\<close>

theorem splice_selects_last_match:
  assumes "well_keyed d" and "distinct (map fst d)" and "(name, s) \<in> set d"
    and "str_in ''ssp'' name"
  shows "\<exists>out. splice d = Inr out \<and>
           (hist_matches name d = [] \<longrightarrow> map_of out name = None) \<and>
           (hist_matches name d \<noteq> [] \<longrightarrow>
              map_of out name = Some (xr_concat (snd (last (hist_matches name d))) s))"
proof -
  from splice_loop_lookup [OF assms(1,2), of d "[]"] obtain out where
    o: "splice d = Inr out" and
    l: "\<And>n. map_of out n =
              (case map_of d n of
                 None \<Rightarrow> map_of [] n
               | Some s \<Rightarrow>
                   if str_in ''ssp'' n \<and> hist_matches n d \<noteq> []
                   then Some (xr_concat (snd (last (hist_matches n d))) s)
                   else map_of [] n)"
    unfolding splice_def by blast
  have "map_of d name = Some s"
    using assms(2,3) by simp
  with l [of name] assms(4) o show ?thesis by simp
qed

lemma str_in_eval:
  "str_in [] ys = True" "str_in (x # xs) [] = False"
  "str_in (x # xs) (y # ys) = (prefix (x # xs) (y # ys) \<or> str_in (x # xs) ys)"
  by (simp_all add: str_in_def sublist_Cons_right)

theorem splice_model_name_index_witness:
  "well_keyed example_runs \<and> (\<exists>out. splice example_runs = Inr out) \<and>
   \<not> well_keyed example_short_key \<and> splice example_short_key = Inl IndexError"
proof -
  have w: "well_keyed example_runs"
    by (simp add: well_keyed_def example_runs_def)
  have b: "\<not> well_keyed example_short_key"
    by (simp add: well_keyed_def example_short_key_def str_in_eval)
  from splice_model_name_index [of example_runs] w
  have 1: "\<exists>out. splice example_runs = Inr out" by simp
  from splice_model_name_index [of example_short_key] b
  have 2: "splice example_short_key = Inl IndexError" by simp
  from w 1 b 2 show ?thesis by (intro conjI)
qed

lemma example_runs_matches:
  "hist_matches ''ScenarioMIP.NCAR.CESM2.ssp585'' example_runs =
     [(''CMIP.NCAR.CESM2.historical'', [1, 2]), (''CMIP.NCAR.CESM2-WACCM.historical'', [7, 8])]"
  "hist_matches ''ScenarioMIP.MOHC.UKESM1.ssp585'' example_runs = []"
  by (simp_all add: hist_matches_def example_runs_def str_in_eval)

theorem splice_selects_last_match_witness:
  "well_keyed example_runs \<and> distinct (map fst example_runs) \<and>
   (\<exists>out. splice example_runs = Inr out \<and>
      map_of out ''ScenarioMIP.NCAR.CESM2.ssp585'' = Some [7, 8, 3] \<and>
      map_of out ''ScenarioMIP.MOHC.UKESM1.ssp585'' = None)"
proof -
  have w: "well_keyed example_runs"
    by (simp add: well_keyed_def example_runs_def)
  have d: "distinct (map fst example_runs)"
    by (simp add: example_runs_def)
  have m1: "(''ScenarioMIP.NCAR.CESM2.ssp585'', [3]) \<in> set example_runs"
    and m2: "(''ScenarioMIP.MOHC.UKESM1.ssp585'', [9]) \<in> set example_runs"
    by (simp_all add: example_runs_def)
  have s1: "str_in ''ssp'' ''ScenarioMIP.NCAR.CESM2.ssp585''"
    and s2: "str_in ''ssp'' ''ScenarioMIP.MOHC.UKESM1.ssp585''"
    by (simp_all add: str_in_eval)
  from splice_selects_last_match [OF w d m1 s1] obtain out where
    o: "splice example_runs = Inr out" and
    a: "map_of out ''ScenarioMIP.NCAR.CESM2.ssp585'' = Some [7, 8, 3]"
    by (auto simp: example_runs_matches xr_concat_def)
  from splice_selects_last_match [OF w d m2 s2] obtain out' where
    o': "splice example_runs = Inr out'" and
    b: "map_of out' ''ScenarioMIP.MOHC.UKESM1.ssp585'' = None"
    by (auto simp: example_runs_matches)
  from o o' have "out' = out" by simp
  with b have "map_of out ''ScenarioMIP.MOHC.UKESM1.ssp585'' = None" by simp
  with o a have "\<exists>out. splice example_runs = Inr out \<and>
      map_of out ''ScenarioMIP.NCAR.CESM2.ssp585'' = Some [7, 8, 3] \<and>
      map_of out ''ScenarioMIP.MOHC.UKESM1.ssp585'' = None"
    by (intro exI [of _ out] conjI)
  with w d show ?thesis by (intro conjI)
qed

text \<open>
  Claim C2. When the historical series has the time steps \<open>t0..t1\<close> and the future series
  the time steps \<open>t1+1..t2\<close>, the concatenation that the splicer stores has exactly the time
  axis \<open>t0..t2\<close>, no timestamp twice, and each of its steps is the step of the source series
  at the same place, timestamp and value unchanged.
\<close>

theorem concat_covers_both_periods:
  assumes "map fst H = [t0..t1]" and "map fst F = [t1 + 1..t2]"
    and "t0 \<le> t1 + 1" and "t1 \<le> t2"
  shows "map fst (xr_concat H F) = [t0..t2] \<and> distinct (map fst (xr_concat H F)) \<and>
         (\<forall>i<length H. xr_concat H F ! i = H ! i) \<and>
         (\<forall>i<length F. xr_concat H F ! (length H + i) = F ! i)"
proof -
  have "[t0..t1] @ [t1 + 1..t2] = [t0..t2]"
  proof (cases "t1 + 1 \<le> t2")
    case True
    from upto_split1 [OF assms(3) True] show ?thesis by simp
  next
    case False
    with assms(4) have "t1 = t2" by simp
    then show ?thesis by simp
  qed
  then have ax: "map fst (xr_concat H F) = [t0..t2]"
    using assms(1,2) by (simp add: xr_concat_def)
  then have "distinct (map fst (xr_concat H F))" by simp
  with ax show ?thesis by (simp add: xr_concat_def nth_append)
qed

theorem concat_covers_both_periods_witness:
  "map fst example_hist = [22200..22201] \<and> map fst example_fut = [22201 + 1..22203] \<and>
   map fst (xr_concat example_hist example_fut) = [22200..22203] \<and>
   xr_concat example_hist example_fut ! 1 = (22201, Fin 2) \<and>
   xr_concat example_hist example_fut ! 3 = (22203, NaN)"
proof -
  have h: "map fst example_hist = [22200..22201]"
    by (simp add: example_hist_def upto.simps)
  have f: "map fst example_fut = [22201 + 1..22203]"
    by (simp add: example_fut_def upto.simps)
  have "(22200::int) \<le> 22201 + 1" "(22201::int) \<le> 22203" by simp_all
  from concat_covers_both_periods [OF h f this]
  have c: "map fst (xr_concat example_hist example_fut) = [22200..22203]"
    and v: "\<forall>i<length example_hist. xr_concat example_hist example_fut ! i = example_hist ! i"
    and u: "\<forall>i<length example_fut. xr_concat example_hist example_fut ! (length example_hist + i) = example_fut ! i"
    by simp_all
  from v have v1: "xr_concat example_hist example_fut ! 1 = (22201, Fin 2)"
    by (simp add: example_hist_def)
  from u [rule_format, of 1] have u1: "xr_concat example_hist example_fut ! 3 = (22203, NaN)"
    by (simp add: example_hist_def example_fut_def eval_nat_numeral)
  from h f c v1 u1 show ?thesis by (intro conjI)
qed

end
